theory Spec2Isabelle
  imports Main "HOL-Library.Char_ord" "HOL-Library.List_Lexorder" "HOL-Library.Word"
begin

section \<open>AudioGridder server: plugin discovery and listener startup\<close>

text \<open>
  A shallow embedding of \<^verbatim>\<open>Server/Source/Server.cpp\<close>. The server object is a record
  of its members, the three files it reads and writes are a record of optional contents,
  and everything the server asks of its surroundings (the plugin format drivers, the child
  process it spawns for a probe, the listening socket) is a field of an environment
  record. Calls that only write to the log or to the splash screen change neither the
  server nor the files and are left out.
\<close>

subsection \<open>Strings\<close>

text \<open>
  \<^verbatim>\<open>juce::String\<close> is modelled as \<open>string\<close>. Case folding is the ASCII one: a letter
  \<open>a..z\<close> loses bit 5, every other character is kept.
\<close>

definition toUpperCase :: "char \<Rightarrow> char" where
  "toUpperCase c =
     (if 97 \<le> (of_char c :: nat) \<and> (of_char c :: nat) \<le> 122
      then (case c of Char b0 b1 b2 b3 b4 b5 b6 b7 \<Rightarrow> Char b0 b1 b2 b3 b4 False b6 b7)
      else c)"

text \<open>
  \<^verbatim>\<open>haystack.compareIgnoreCaseUpTo (needle, needleLength) == 0\<close>: the needle is matched,
  ignoring case, at the front of the haystack.
\<close>

fun compareIgnoreCaseUpTo :: "string \<Rightarrow> string \<Rightarrow> bool" where
  "compareIgnoreCaseUpTo h [] = True"
| "compareIgnoreCaseUpTo [] (c # n) = False"
| "compareIgnoreCaseUpTo (a # h) (c # n) =
     (toUpperCase a = toUpperCase c \<and> compareIgnoreCaseUpTo h n)"

text \<open>
  \<^verbatim>\<open>String::containsIgnoreCase\<close>: the search loop of \<^verbatim>\<open>indexOfIgnoreCase\<close> tries the
  needle at every position of the haystack, the end included.
\<close>

fun containsIgnoreCase :: "string \<Rightarrow> string \<Rightarrow> bool" where
  "containsIgnoreCase [] n = compareIgnoreCaseUpTo [] n"
| "containsIgnoreCase (a # h) n = (compareIgnoreCaseUpTo (a # h) n \<or> containsIgnoreCase h n)"

text \<open>
  \<^verbatim>\<open>String::compare\<close> is case-sensitive and returns 0 exactly for equal strings; the
  server only ever tests \<^verbatim>\<open>!a.compare(b)\<close>.
\<close>

definition compare :: "string \<Rightarrow> string \<Rightarrow> int" where
  "compare a b = (if a = b then 0 else if a < b then - 1 else 1)"

text \<open>
  The reading of "contains \<open>t\<close> as a case-insensitive substring" that the specification
  uses: some stretch of the name equals \<open>t\<close> after case folding.
\<close>

definition isSubstringIgnoreCase :: "string \<Rightarrow> string \<Rightarrow> bool" where
  "isSubstringIgnoreCase t nm \<longleftrightarrow>
     (\<exists>pre mid post. nm = pre @ mid @ post \<and> map toUpperCase mid = map toUpperCase t)"

subsection \<open>The plugin catalog (\<^verbatim>\<open>juce::KnownPluginList\<close>)\<close>

text \<open>
  Of a \<^verbatim>\<open>PluginDescription\<close> the server reads the name, the descriptive name, the
  format name and the file or identifier.
\<close>

record plugin_desc =
  pd_name :: string
  descriptiveName :: string
  pluginFormatName :: string
  fileOrIdentifier :: string

record known_plugin_list =
  types :: "plugin_desc list"
  blacklist :: "string list"

definition addToBlacklist :: "string \<Rightarrow> known_plugin_list \<Rightarrow> known_plugin_list" where
  "addToBlacklist pluginID l =
     (if pluginID \<in> set (blacklist l) then l
      else l\<lparr>blacklist := blacklist l @ [pluginID]\<rparr>)"

definition getTypeForFile :: "known_plugin_list \<Rightarrow> string \<Rightarrow> plugin_desc option" where
  "getTypeForFile l fileOrId = find (\<lambda>d. fileOrIdentifier d = fileOrId) (types l)"

definition getBlacklistedFiles :: "known_plugin_list \<Rightarrow> string list" where
  "getBlacklistedFiles l = blacklist l"

text \<open>
  Modelled from the spec: \<^verbatim>\<open>KnownPluginList::sort (sortAlphabetically, true)\<close> belongs to
  the JUCE library. The catalog is sorted "alphabetically (case-insensitive), stable with
  respect to equal names"; \<open>sort_key\<close> is a stable insertion sort.
\<close>

definition sortKey :: "plugin_desc \<Rightarrow> string" where
  "sortKey d = map toUpperCase (pd_name d)"

definition sortAlphabetically :: "known_plugin_list \<Rightarrow> known_plugin_list" where
  "sortAlphabetically l = l\<lparr>types := sort_key sortKey (types l)\<rparr>"

subsection \<open>Server state, files and environment\<close>

datatype format = AudioUnitPluginFormat | VST3PluginFormat | VSTPluginFormat

fun getName :: "format \<Rightarrow> string" where
  "getName AudioUnitPluginFormat = ''AudioUnit''"
| "getName VST3PluginFormat = ''VST3''"
| "getName VSTPluginFormat = ''VST''"

text \<open>
  The configuration file as the JSON object it parses to: every key may be missing. A
  file that does not parse, or a key of another type, makes the parser throw before the
  sentinel is looked at; such files are not values of this type. The screen quality is a
  \<^verbatim>\<open>float\<close>, carried as its 32 bits and never computed with.
\<close>

record config_json =
  j_ID :: "32 word option"
  j_AU :: "bool option"
  j_VST :: "bool option"
  j_VST2 :: "bool option"
  j_ScreenQuality :: "32 word option"
  j_ScreenDiffDetection :: "bool option"
  j_ExcludePlugins :: "string list option"

text \<open>
  The members of \<^verbatim>\<open>Server\<close>. A worker is known by the client connection it owns.
  The two \<^verbatim>\<open>int\<close> members are 32-bit words read as signed: their sum, the port
  number, wraps.
\<close>

record server =
  m_id :: "32 word"
  m_port :: "32 word"
  m_host :: string
  m_enableAU :: bool
  m_enableVST :: bool
  m_enableVST2 :: bool
  m_screenJpgQuality :: "32 word"
  m_screenDiffDetection :: bool
  m_pluginexclude :: "string set"
  m_pluginlist :: known_plugin_list
  m_workers :: "nat list"

text \<open>
  The three files, named by the macros of the source; \<open>None\<close> is a file that does not
  exist. The catalog file holds the catalog that \<^verbatim>\<open>recreateFromXml\<close> rebuilds from it,
  the sentinel file its lines.
\<close>

record filesystem =
  SERVER_CONFIG_FILE :: "config_json option"
  KNOWN_PLUGINS_FILE :: "known_plugin_list option"
  DEAD_MANS_FILE :: "string list option"

text \<open>
  What the parent observes of a child process: it could not be started, it is still
  running after the wait, or it has exited with a code.
\<close>

datatype proc_outcome = FailedToStart | StillRunning | Exited "32 word"

text \<open>
  The actions of the server on processes, connections, workers and callbacks, in the
  order in which they happen. \<open>ProcStart\<close> is the call of \<^verbatim>\<open>proc.start\<close> with its
  arguments, whether or not the process comes up; \<open>ProcWait\<close> carries the timeout in
  milliseconds given to \<^verbatim>\<open>waitForProcessToFinish\<close>.
\<close>

datatype event =
    ProcStart "string list"
  | ProcWait int
  | ProcKill
  | ConnAccepted nat
  | WorkerStarted nat
  | WorkersReleased "nat list"
  | Callback bool

record world =
  fs :: filesystem
  trace :: "event list"

text \<open>
  The surroundings. \<open>childProcess\<close> is the whole run of a spawned child, from its
  arguments and the world it starts in (the files and what has happened so far): what the
  parent observes of it, and the files as it leaves them. The child runs
  \<^verbatim>\<open>scanPlugin\<close> on the plugin binary in a process of its own; what it does to the files
  is not decided by the parent.
\<close>

record env =
  JUCE_MAC :: bool
  currentExecutableFile :: string
  searchPathsForPlugins :: "format \<Rightarrow> string list"
  getNameOfPluginFromIdentifier :: "format \<Rightarrow> string \<Rightarrow> string"
  pluginNeedsRescanning :: "format \<Rightarrow> plugin_desc \<Rightarrow> bool"
  childProcess :: "string list \<Rightarrow> world \<Rightarrow> proc_outcome \<times> filesystem"
  createListener :: "int \<Rightarrow> string \<Rightarrow> bool"

subsection \<open>Exclusion policy\<close>

text \<open>
  The loop over the include-list: it returns \<open>False\<close> (not excluded) at the first entry
  equal to the name and \<open>True\<close> when it runs out.
\<close>

fun excludedByIncludeList :: "string \<Rightarrow> string list \<Rightarrow> bool" where
  "excludedByIncludeList nm [] = True"
| "excludedByIncludeList nm (incl # rest) =
     (if compare nm incl = 0 then False else excludedByIncludeList nm rest)"

definition shouldExclude :: "server \<Rightarrow> string \<Rightarrow> string list \<Rightarrow> bool" where
  "shouldExclude s nm include =
     (if containsIgnoreCase nm ''AGridder'' \<or> containsIgnoreCase nm ''AudioGridder'' then True
      else if length include > 0 then excludedByIncludeList nm include
      else Bex (m_pluginexclude s) (\<lambda>excl. compare nm excl = 0))"

definition shouldExclude1 :: "server \<Rightarrow> string \<Rightarrow> bool" where
  "shouldExclude1 s nm = shouldExclude s nm []"

subsection \<open>Configuration, catalog and sentinel files\<close>

text \<open>The body of \<^verbatim>\<open>if (cfg.exists())\<close>: every key that is present overrides its member.\<close>

definition readConfig :: "config_json \<Rightarrow> server \<Rightarrow> server" where
  "readConfig j s =
     (let s1 = (case j_ID j of Some v \<Rightarrow> s\<lparr>m_id := v\<rparr> | None \<Rightarrow> s);
          s2 = (case j_AU j of Some v \<Rightarrow> s1\<lparr>m_enableAU := v\<rparr> | None \<Rightarrow> s1);
          s3 = (case j_VST j of Some v \<Rightarrow> s2\<lparr>m_enableVST := v\<rparr> | None \<Rightarrow> s2);
          s4 = (case j_VST2 j of Some v \<Rightarrow> s3\<lparr>m_enableVST2 := v\<rparr> | None \<Rightarrow> s3);
          s5 = (case j_ScreenQuality j of
                  Some v \<Rightarrow> s4\<lparr>m_screenJpgQuality := v\<rparr> | None \<Rightarrow> s4);
          s6 = (case j_ScreenDiffDetection j of
                  Some v \<Rightarrow> s5\<lparr>m_screenDiffDetection := v\<rparr> | None \<Rightarrow> s5)
      in case j_ExcludePlugins j of
           Some l \<Rightarrow> s6\<lparr>m_pluginexclude := m_pluginexclude s6 \<union> set l\<rparr>
         | None \<Rightarrow> s6)"

text \<open>
  \<^verbatim>\<open>saveConfig\<close> deletes the configuration file and writes all seven keys; the exclusion
  set is written in the order of the \<^verbatim>\<open>std::set\<close>.
\<close>

definition saveConfig :: "server \<Rightarrow> world \<Rightarrow> world" where
  "saveConfig s w =
     w\<lparr>fs := (fs w)\<lparr>SERVER_CONFIG_FILE := Some
        \<lparr>j_ID = Some (m_id s), j_AU = Some (m_enableAU s), j_VST = Some (m_enableVST s),
         j_VST2 = Some (m_enableVST2 s), j_ScreenQuality = Some (m_screenJpgQuality s),
         j_ScreenDiffDetection = Some (m_screenDiffDetection s),
         j_ExcludePlugins = Some (sorted_list_of_set (m_pluginexclude s))\<rparr>\<rparr>\<rparr>"

text \<open>
  \<^verbatim>\<open>loadKnownPluginList (plist)\<close>: when the catalog file exists, \<^verbatim>\<open>recreateFromXml\<close> clears
  the list, blacklist included, and rebuilds both from the file; otherwise the list is
  left as it is. \<^verbatim>\<open>saveKnownPluginList (plist)\<close> writes the list to the file.
\<close>

definition loadKnownPluginListInto :: "known_plugin_list \<Rightarrow> world \<Rightarrow> known_plugin_list" where
  "loadKnownPluginListInto plist w =
     (case KNOWN_PLUGINS_FILE (fs w) of Some l \<Rightarrow> l | None \<Rightarrow> plist)"

definition loadKnownPluginList :: "server \<Rightarrow> world \<Rightarrow> server" where
  "loadKnownPluginList s w = s\<lparr>m_pluginlist := loadKnownPluginListInto (m_pluginlist s) w\<rparr>"

definition saveKnownPluginListFrom :: "known_plugin_list \<Rightarrow> world \<Rightarrow> world" where
  "saveKnownPluginListFrom plist w = w\<lparr>fs := (fs w)\<lparr>KNOWN_PLUGINS_FILE := Some plist\<rparr>\<rparr>"

definition saveKnownPluginList :: "server \<Rightarrow> world \<Rightarrow> world" where
  "saveKnownPluginList s w = saveKnownPluginListFrom (m_pluginlist s) w"

text \<open>
  \<^verbatim>\<open>loadConfig\<close>, which the constructor runs: the configuration file is read when it
  exists; then, when the sentinel file exists, every line of it is added to the blacklist
  of the catalog in memory, the file is deleted and the configuration is saved.
\<close>

definition loadConfig :: "server \<Rightarrow> world \<Rightarrow> server \<times> world" where
  "loadConfig s w =
     (let s1 = (case SERVER_CONFIG_FILE (fs w) of Some j \<Rightarrow> readConfig j s | None \<Rightarrow> s)
      in case DEAD_MANS_FILE (fs w) of
           Some lns \<Rightarrow>
             (let s2 = s1\<lparr>m_pluginlist := fold addToBlacklist lns (m_pluginlist s1)\<rparr>;
                  w1 = w\<lparr>fs := (fs w)\<lparr>DEAD_MANS_FILE := None\<rparr>\<rparr>
              in (s2, saveConfig s2 w1))
         | None \<Rightarrow> (s1, w))"

subsection \<open>Isolated probe\<close>

text \<open>
  \<^verbatim>\<open>scanNextPlugin\<close> starts the executable with \<^verbatim>\<open>-scan id|fmt\<close>. A child that started
  is waited for with a timeout of 30000 ms and killed when it is still running after that.
  A child that could not be started has touched no file.
\<close>

definition scanNextPlugin :: "env \<Rightarrow> string \<Rightarrow> string \<Rightarrow> server \<Rightarrow> world \<Rightarrow> server \<times> world" where
  "scanNextPlugin e ident fmt s w =
     (let fileFmt = ident @ ''|'' @ fmt;
          args = [currentExecutableFile e, ''-scan'', fileFmt];
          w1 = w\<lparr>trace := trace w @ [ProcStart args]\<rparr>
      in case childProcess e args w of
           (FailedToStart, fs') \<Rightarrow> (s, w1)
         | (StillRunning, fs') \<Rightarrow>
             (s, w1\<lparr>fs := fs', trace := trace w1 @ [ProcWait 30000, ProcKill]\<rparr>)
         | (Exited ec, fs') \<Rightarrow>
             (s, w1\<lparr>fs := fs', trace := trace w1 @ [ProcWait 30000]\<rparr>))"

subsection \<open>Scan pass\<close>

definition enabledFormats :: "env \<Rightarrow> server \<Rightarrow> format list" where
  "enabledFormats e s =
     (if JUCE_MAC e \<and> m_enableAU s then [AudioUnitPluginFormat] else []) @
     (if m_enableVST s then [VST3PluginFormat] else []) @
     (if m_enableVST2 s then [VSTPluginFormat] else [])"

text \<open>
  The inner loop of \<^verbatim>\<open>scanForPlugins\<close> over the files or identifiers of one format. The
  state of the loop is the server, the world and the never-seen set.
\<close>

fun scanFiles ::
  "env \<Rightarrow> string list \<Rightarrow> format \<Rightarrow> string list \<Rightarrow> server \<times> world \<times> string set \<Rightarrow>
   server \<times> world \<times> string set" where
  "scanFiles e include fmt [] st = st"
| "scanFiles e include fmt (fileOrId # rest) (s, w, neverSeenList) =
     (let nm = getNameOfPluginFromIdentifier e fmt fileOrId;
          plugindesc = getTypeForFile (m_pluginlist s) fileOrId;
          sw = (if (case plugindesc of None \<Rightarrow> True
                                     | Some d \<Rightarrow> pluginNeedsRescanning e fmt d) \<and>
                   fileOrId \<notin> set (getBlacklistedFiles (m_pluginlist s)) \<and>
                   \<not> shouldExclude s nm include
                then scanNextPlugin e fileOrId (getName fmt) s w
                else (s, w))
      in scanFiles e include fmt rest (fst sw, snd sw, neverSeenList - {nm}))"

text \<open>The outer loop over the enabled formats.\<close>

fun scanFormats ::
  "env \<Rightarrow> string list \<Rightarrow> format list \<Rightarrow> server \<times> world \<times> string set \<Rightarrow>
   server \<times> world \<times> string set" where
  "scanFormats e include [] st = st"
| "scanFormats e include (fmt # fmts) st =
     scanFormats e include fmts (scanFiles e include fmt (searchPathsForPlugins e fmt) st)"

definition scanForPlugins :: "env \<Rightarrow> string list \<Rightarrow> server \<Rightarrow> world \<Rightarrow> server \<times> world" where
  "scanForPlugins e include s w =
     (let fmts = enabledFormats e s;
          neverSeenList = m_pluginexclude s;
          s1 = loadKnownPluginList s w;
          st = scanFormats e include fmts (s1, w, neverSeenList);
          s2 = fst st;
          w2 = fst (snd st);
          s3 = loadKnownPluginList s2 w2;
          s4 = s3\<lparr>m_pluginlist := sortAlphabetically (m_pluginlist s3)\<rparr>
      in (s4\<lparr>m_pluginexclude := m_pluginexclude s4 - snd (snd st)\<rparr>, w2))"

definition scanForPlugins0 :: "env \<Rightarrow> server \<Rightarrow> world \<Rightarrow> server \<times> world" where
  "scanForPlugins0 e s w = scanForPlugins e [] s w"

subsection \<open>Adding plugins on request\<close>

text \<open>
  The body of the thread that \<^verbatim>\<open>addPlugins\<close> starts. The inner loop looks a name up among
  the descriptive names of the catalog; the outer loop calls \<^verbatim>\<open>fn (false)\<close> and returns
  at the first name that is not found, and calls \<^verbatim>\<open>fn (true)\<close> when it runs out. The
  callback is a flag (is it non-null) and its calls are events.
\<close>

fun foundIn :: "string \<Rightarrow> plugin_desc list \<Rightarrow> bool" where
  "foundIn nm [] = False"
| "foundIn nm (p # ps) = (if compare nm (descriptiveName p) = 0 then True else foundIn nm ps)"

fun reportFound :: "string list \<Rightarrow> plugin_desc list \<Rightarrow> event list" where
  "reportFound [] ts = [Callback True]"
| "reportFound (nm # rest) ts =
     (if \<not> foundIn nm ts then [Callback False] else reportFound rest ts)"

definition addPlugins :: "env \<Rightarrow> string list \<Rightarrow> bool \<Rightarrow> server \<Rightarrow> world \<Rightarrow> server \<times> world" where
  "addPlugins e names fn s w =
     (let sw = scanForPlugins e names s w;
          s1 = fst sw;
          w2 = saveConfig s1 (snd sw);
          w3 = saveKnownPluginList s1 w2
      in if fn then (s1, w3\<lparr>trace := trace w3 @ reportFound names (types (m_pluginlist s1))\<rparr>)
         else (s1, w3))"

subsection \<open>Listener and accept loop\<close>

text \<open>
  One turn of the accept loop as the surroundings decide it: whether the thread has been
  asked to exit, the connection that \<^verbatim>\<open>waitForNextConnection\<close> returns (\<open>None\<close> is
  \<^verbatim>\<open>nullptr\<close>), and the workers whose threads are running when the registry is swept.
\<close>

record accept_step =
  currentThreadShouldExit :: bool
  waitForNextConnection :: "nat option"
  threadsRunning :: "nat list"

text \<open>
  The accept loop runs until the thread is asked to exit; it is given the turns that
  happen, and \<open>None\<close> is a loop that is still running when they are used up. The sweep
  moves every worker whose thread is not running out of the registry and hands them to
  the message thread.
\<close>

fun acceptLoop :: "accept_step list \<Rightarrow> server \<Rightarrow> world \<Rightarrow> (server \<times> world) option" where
  "acceptLoop [] s w = None"
| "acceptLoop (st # rest) s w =
     (if currentThreadShouldExit st then Some (s, w)
      else case waitForNextConnection st of
             None \<Rightarrow> acceptLoop rest s w
           | Some clnt \<Rightarrow>
               (let workers = m_workers s @ [clnt];
                    w1 = w\<lparr>trace := trace w @ [ConnAccepted clnt, WorkerStarted clnt]\<rparr>;
                    deadWorkers = filter (\<lambda>x. x \<notin> set (threadsRunning st)) workers;
                    s1 = s\<lparr>m_workers := filter (\<lambda>x. x \<in> set (threadsRunning st)) workers\<rparr>;
                    w2 = w1\<lparr>trace := trace w1 @ [WorkersReleased deadWorkers]\<rparr>
                in acceptLoop rest s1 w2))"

definition run :: "env \<Rightarrow> accept_step list \<Rightarrow> server \<Rightarrow> world \<Rightarrow> (server \<times> world) option" where
  "run e steps s w =
     (let sw = scanForPlugins0 e s w;
          s1 = fst sw;
          w2 = saveConfig s1 (snd sw);
          w3 = saveKnownPluginList s1 w2
      in if createListener e (sint (m_port s1 + m_id s1)) (m_host s1)
         then acceptLoop steps s1 w3
         else Some (s1, w3))"

subsection \<open>Reading a trace\<close>

fun probesOf :: "event list \<Rightarrow> string list list" where
  "probesOf [] = []"
| "probesOf (ProcStart args # tr) = args # probesOf tr"
| "probesOf (ev # tr) = probesOf tr"

fun callbacksOf :: "event list \<Rightarrow> bool list" where
  "callbacksOf [] = []"
| "callbacksOf (Callback b # tr) = b # callbacksOf tr"
| "callbacksOf (ev # tr) = callbacksOf tr"

fun connectionsOf :: "event list \<Rightarrow> event list" where
  "connectionsOf [] = []"
| "connectionsOf (ConnAccepted c # tr) = ConnAccepted c # connectionsOf tr"
| "connectionsOf (WorkerStarted c # tr) = WorkerStarted c # connectionsOf tr"
| "connectionsOf (ev # tr) = connectionsOf tr"

fun waitsOf :: "event list \<Rightarrow> int list" where
  "waitsOf [] = []"
| "waitsOf (ProcWait t # tr) = t # waitsOf tr"
| "waitsOf (ev # tr) = waitsOf tr"

subsection \<open>The words of the specification about a scan pass\<close>

text \<open>
  The plugins that a pass discovers, in the order of the pass: for every enabled format,
  every file or identifier that its driver enumerates. The names observed are the display
  names of those.
\<close>

definition discovered :: "env \<Rightarrow> server \<Rightarrow> (format \<times> string) list" where
  "discovered e s =
     concat (map (\<lambda>fmt. map (Pair fmt) (searchPathsForPlugins e fmt)) (enabledFormats e s))"

definition observedNames :: "env \<Rightarrow> server \<Rightarrow> string set" where
  "observedNames e s =
     set (map (\<lambda>p. getNameOfPluginFromIdentifier e (fst p) (snd p)) (discovered e s))"

text \<open>
  A probe is required when no descriptor exists for the identifier or the driver reports
  that the descriptor needs rescanning, the identifier is not blacklisted, and the display
  name is not excluded for the include-list.
\<close>

definition needsDescriptor :: "env \<Rightarrow> server \<Rightarrow> format \<times> string \<Rightarrow> bool" where
  "needsDescriptor e s p =
     (case getTypeForFile (m_pluginlist s) (snd p) of
        None \<Rightarrow> True
      | Some d \<Rightarrow> pluginNeedsRescanning e (fst p) d)"

definition probeRequired :: "env \<Rightarrow> string list \<Rightarrow> server \<Rightarrow> format \<times> string \<Rightarrow> bool" where
  "probeRequired e inc s p \<longleftrightarrow>
     needsDescriptor e s p \<and>
     snd p \<notin> set (blacklist (m_pluginlist s)) \<and>
     \<not> shouldExclude s (getNameOfPluginFromIdentifier e (fst p) (snd p)) inc"

text \<open>The command line of the probe of one discovered plugin.\<close>

definition probeArgs :: "env \<Rightarrow> format \<times> string \<Rightarrow> string list" where
  "probeArgs e p = [currentExecutableFile e, ''-scan'', snd p @ ''|'' @ getName (fst p)]"

subsection \<open>Worked examples\<close>

text \<open>
  A server with no exclusions and an empty catalog; a machine with two VST3 plugins, of
  which \<open>Reverb\<close> probes well (its child adds the descriptor to the catalog file and
  exits with 0) and \<open>Bad\<close> hangs until it is killed; a listener that refuses a negative
  port and the port 55055, which is taken.
\<close>

definition exampleServer :: server where
  "exampleServer =
     \<lparr>m_id = 0, m_port = 55055, m_host = [], m_enableAU = True, m_enableVST = True,
      m_enableVST2 = True, m_screenJpgQuality = 0, m_screenDiffDetection = True,
      m_pluginexclude = {}, m_pluginlist = \<lparr>types = [], blacklist = []\<rparr>, m_workers = []\<rparr>"

definition reverbDesc :: plugin_desc where
  "reverbDesc =
     \<lparr>pd_name = ''Reverb'', descriptiveName = ''Reverb'', pluginFormatName = ''VST3'',
      fileOrIdentifier = ''/plugins/Reverb.vst3''\<rparr>"

definition exampleEnv :: env where
  "exampleEnv =
     \<lparr>JUCE_MAC = False,
      currentExecutableFile = ''/opt/AudioGridderServer'',
      searchPathsForPlugins = (\<lambda>fmt. if fmt = VST3PluginFormat
         then [''/plugins/Reverb.vst3'', ''/plugins/Bad.vst3''] else []),
      getNameOfPluginFromIdentifier = (\<lambda>fmt i. if i = ''/plugins/Reverb.vst3'' then ''Reverb''
         else if i = ''/plugins/Bad.vst3'' then ''Bad'' else i),
      pluginNeedsRescanning = (\<lambda>fmt d. False),
      childProcess = (\<lambda>args w.
         if args = [''/opt/AudioGridderServer'', ''-scan'', ''/plugins/Reverb.vst3|VST3'']
         then (Exited 0, (fs w)\<lparr>KNOWN_PLUGINS_FILE :=
                 Some ((loadKnownPluginListInto \<lparr>types = [], blacklist = []\<rparr> w)
                         \<lparr>types := [reverbDesc]\<rparr>)\<rparr>)
         else (StillRunning, fs w)),
      createListener = (\<lambda>port host. 0 \<le> port \<and> port \<noteq> 55055)\<rparr>"

text \<open>A catalog file that already blacklists \<open>Bad\<close>, and nothing else on disk.\<close>

definition exampleWorld :: world where
  "exampleWorld =
     \<lparr>fs = \<lparr>SERVER_CONFIG_FILE = None,
            KNOWN_PLUGINS_FILE = Some \<lparr>types = [], blacklist = [''/plugins/Bad.vst3'']\<rparr>,
            DEAD_MANS_FILE = None\<rparr>,
      trace = []\<rparr>"

text \<open>
  The disk after a crash during a probe: the sentinel file names two identifiers, the
  catalog file holds an empty catalog.
\<close>

definition crashedWorld :: world where
  "crashedWorld =
     \<lparr>fs = \<lparr>SERVER_CONFIG_FILE = None,
            KNOWN_PLUGINS_FILE = Some \<lparr>types = [], blacklist = []\<rparr>,
            DEAD_MANS_FILE = Some [''/plugins/Bad.vst3'', ''/plugins/Worse.vst'']\<rparr>,
      trace = []\<rparr>"

text \<open>
  A machine with one plugin, \<open>Slow\<close>, whose first probe does not finish within the
  timeout and writes nothing, and whose later probes finish and write its descriptor: a
  probe that is retried on the next pass until it completes. Nothing is on disk.
\<close>

definition slowDesc :: plugin_desc where
  "slowDesc =
     \<lparr>pd_name = ''Slow'', descriptiveName = ''Slow'', pluginFormatName = ''VST3'',
      fileOrIdentifier = ''/plugins/Slow.vst3''\<rparr>"

definition retryEnv :: env where
  "retryEnv =
     \<lparr>JUCE_MAC = False,
      currentExecutableFile = ''/opt/AudioGridderServer'',
      searchPathsForPlugins = (\<lambda>fmt. if fmt = VST3PluginFormat
         then [''/plugins/Slow.vst3''] else []),
      getNameOfPluginFromIdentifier = (\<lambda>fmt i. ''Slow''),
      pluginNeedsRescanning = (\<lambda>fmt d. False),
      childProcess = (\<lambda>args w.
         if ProcStart args \<in> set (trace w)
         then (Exited 0, (fs w)\<lparr>KNOWN_PLUGINS_FILE :=
                 Some \<lparr>types = [slowDesc], blacklist = []\<rparr>\<rparr>)
         else (StillRunning, fs w)),
      createListener = (\<lambda>port host. True)\<rparr>"

definition emptyWorld :: world where
  "emptyWorld =
     \<lparr>fs = \<lparr>SERVER_CONFIG_FILE = None, KNOWN_PLUGINS_FILE = None, DEAD_MANS_FILE = None\<rparr>,
      trace = []\<rparr>"

text \<open>Two connections, then the request to exit.\<close>

definition exampleSteps :: "accept_step list" where
  "exampleSteps =
     [\<lparr>currentThreadShouldExit = False, waitForNextConnection = Some 7, threadsRunning = [7]\<rparr>,
      \<lparr>currentThreadShouldExit = False, waitForNextConnection = Some 8, threadsRunning = [8]\<rparr>,
      \<lparr>currentThreadShouldExit = True, waitForNextConnection = None, threadsRunning = []\<rparr>]"

lemmas example_defs =
  exampleEnv_def exampleServer_def exampleWorld_def crashedWorld_def retryEnv_def emptyWorld_def
  reverbDesc_def slowDesc_def

lemmas scan_defs =
  scanForPlugins_def scanForPlugins0_def enabledFormats_def loadKnownPluginList_def
  loadKnownPluginListInto_def Let_def getTypeForFile_def getBlacklistedFiles_def
  shouldExclude_def toUpperCase_def scanNextPlugin_def sortAlphabetically_def sortKey_def

section \<open>Properties\<close>

subsection \<open>Strings\<close>

lemma compareIgnoreCaseUpTo_iff:
  "compareIgnoreCaseUpTo h n \<longleftrightarrow>
     (\<exists>mid post. h = mid @ post \<and> map toUpperCase mid = map toUpperCase n)"
proof (induction h n rule: compareIgnoreCaseUpTo.induct)
  case (1 h)
  then show ?case by simp
next
  case (2 c n)
  then show ?case by simp
next
  case (3 a h c n)
  show ?case
  proof
    assume "compareIgnoreCaseUpTo (a # h) (c # n)"
    with 3 obtain mid post where "toUpperCase a = toUpperCase c" "h = mid @ post"
      "map toUpperCase mid = map toUpperCase n" by auto
    then have "a # h = (a # mid) @ post \<and> map toUpperCase (a # mid) = map toUpperCase (c # n)"
      by simp
    then show "\<exists>mid post. a # h = mid @ post \<and> map toUpperCase mid = map toUpperCase (c # n)"
      by blast
  next
    assume "\<exists>mid post. a # h = mid @ post \<and> map toUpperCase mid = map toUpperCase (c # n)"
    then obtain mid post where m: "a # h = mid @ post"
      "map toUpperCase mid = map toUpperCase (c # n)" by blast
    then obtain m' where "mid = a # m'" by (cases mid) auto
    with m 3 show "compareIgnoreCaseUpTo (a # h) (c # n)" by auto
  qed
qed

lemma containsIgnoreCase_iff: "containsIgnoreCase h n \<longleftrightarrow> isSubstringIgnoreCase n h"
  unfolding isSubstringIgnoreCase_def
proof (induction h)
  case Nil
  show ?case by (auto simp: compareIgnoreCaseUpTo_iff)
next
  case (Cons a h)
  show ?case
  proof
    assume "containsIgnoreCase (a # h) n"
    then consider "compareIgnoreCaseUpTo (a # h) n" | "containsIgnoreCase h n" by auto
    then show "\<exists>pre mid post. a # h = pre @ mid @ post \<and> map toUpperCase mid = map toUpperCase n"
    proof cases
      case 1
      then obtain mid post where
        "a # h = [] @ mid @ post \<and> map toUpperCase mid = map toUpperCase n"
        unfolding compareIgnoreCaseUpTo_iff by auto
      then show ?thesis by blast
    next
      case 2
      with Cons obtain pre mid post where "h = pre @ mid @ post"
        "map toUpperCase mid = map toUpperCase n" by blast
      then have "a # h = (a # pre) @ mid @ post \<and> map toUpperCase mid = map toUpperCase n"
        by simp
      then show ?thesis by blast
    qed
  next
    assume "\<exists>pre mid post. a # h = pre @ mid @ post \<and> map toUpperCase mid = map toUpperCase n"
    then obtain pre mid post where m: "a # h = pre @ mid @ post"
      "map toUpperCase mid = map toUpperCase n" by blast
    show "containsIgnoreCase (a # h) n"
    proof (cases pre)
      case Nil
      with m have "compareIgnoreCaseUpTo (a # h) n"
        unfolding compareIgnoreCaseUpTo_iff by auto
      then show ?thesis by simp
    next
      case (Cons b pre')
      with m have "h = pre' @ mid @ post" by simp
      with m Cons.IH have "containsIgnoreCase h n" by blast
      then show ?thesis by simp
    qed
  qed
qed

lemma compare_eq_0 [simp]: "compare a b = 0 \<longleftrightarrow> a = b"
  by (simp add: compare_def)

lemma excludedByIncludeList_iff: "excludedByIncludeList nm inc \<longleftrightarrow> nm \<notin> set inc"
  by (induction inc) auto

subsection \<open>Exclusion policy\<close>

text \<open>
  C3, as stated: for every name \<open>N\<close> and every non-empty include-list \<open>L\<close>,
  \<open>shouldExclude N L\<close> is false if and only if \<open>N\<close> is an entry of \<open>L\<close>. It fails
  for a name that carries the product name of the host: the name \<open>AudioGridder\<close> is
  excluded although the include-list holds exactly that name.
\<close>

theorem shouldExclude_include_counterexample:
  "[''AudioGridder''] \<noteq> [] \<and> ''AudioGridder'' \<in> set [''AudioGridder''] \<and>
   shouldExclude exampleServer ''AudioGridder'' [''AudioGridder''] = True"
  by (simp add: shouldExclude_def toUpperCase_def)

text \<open>
  C3, amended: for every name \<open>N\<close> that contains neither \<open>AGridder\<close> nor
  \<open>AudioGridder\<close> as a case-insensitive substring, and every non-empty include-list
  \<open>L\<close>, \<open>shouldExclude N L\<close> is false if and only if \<open>N\<close> is an entry of \<open>L\<close>
  (exact, case-sensitive), whatever the persisted exclusion set \<open>X\<close> holds.
\<close>

theorem shouldExclude_include_list:
  assumes "inc \<noteq> []"
    and "\<not> isSubstringIgnoreCase ''AGridder'' nm"
    and "\<not> isSubstringIgnoreCase ''AudioGridder'' nm"
  shows "shouldExclude (s\<lparr>m_pluginexclude := X\<rparr>) nm inc = False \<longleftrightarrow> nm \<in> set inc"
  using assms
  by (simp add: shouldExclude_def containsIgnoreCase_iff excludedByIncludeList_iff)

theorem shouldExclude_include_list_witness:
  "[''Reverb'', ''Delay''] \<noteq> [] \<and>
   \<not> isSubstringIgnoreCase ''AGridder'' ''Reverb'' \<and>
   \<not> isSubstringIgnoreCase ''AudioGridder'' ''Reverb'' \<and>
   shouldExclude (exampleServer\<lparr>m_pluginexclude := {''Reverb''}\<rparr>) ''Reverb''
     [''Reverb'', ''Delay''] = False \<and>
   shouldExclude (exampleServer\<lparr>m_pluginexclude := {''Reverb''}\<rparr>) ''reverb''
     [''Reverb'', ''Delay''] = True"
proof -
  have a: "\<not> isSubstringIgnoreCase ''AGridder'' ''Reverb''"
    and b: "\<not> isSubstringIgnoreCase ''AudioGridder'' ''Reverb''"
    and c: "\<not> isSubstringIgnoreCase ''AGridder'' ''reverb''"
    and d: "\<not> isSubstringIgnoreCase ''AudioGridder'' ''reverb''"
    unfolding containsIgnoreCase_iff [symmetric] by (simp_all add: toUpperCase_def)
  have l: "[''Reverb'', ''Delay''] \<noteq> []" by simp
  from shouldExclude_include_list [OF l a b, where s = exampleServer and X = "{''Reverb''}"]
    shouldExclude_include_list [OF l c d, where s = exampleServer and X = "{''Reverb''}"]
  show ?thesis using a b by simp
qed

text \<open>
  C4: a name that contains \<open>AGridder\<close> or \<open>AudioGridder\<close> as a case-insensitive
  substring is excluded under every include-list, also one that lists the name itself,
  and is excluded when no include-list is given.
\<close>

theorem shouldExclude_self:
  assumes "isSubstringIgnoreCase ''AGridder'' nm \<or> isSubstringIgnoreCase ''AudioGridder'' nm"
  shows "shouldExclude s nm inc \<and> shouldExclude s nm (nm # inc) \<and> shouldExclude1 s nm"
  using assms by (auto simp: shouldExclude_def shouldExclude1_def containsIgnoreCase_iff)

theorem shouldExclude_self_witness:
  "isSubstringIgnoreCase ''AudioGridder'' ''My audiogridder FX'' \<and>
   shouldExclude exampleServer ''My audiogridder FX'' [''My audiogridder FX''] \<and>
   isSubstringIgnoreCase ''AGridder'' ''AGRIDDER'' \<and>
   shouldExclude1 exampleServer ''AGRIDDER''"
proof -
  have a: "isSubstringIgnoreCase ''AudioGridder'' ''My audiogridder FX''"
    and b: "isSubstringIgnoreCase ''AGridder'' ''AGRIDDER''"
    unfolding containsIgnoreCase_iff [symmetric] by (simp_all add: toUpperCase_def)
  from shouldExclude_self [OF disjI2, OF a, where s = exampleServer and inc = "[]"]
    shouldExclude_self [OF disjI1, OF b, where s = exampleServer and inc = "[]"]
  show ?thesis using a b by simp
qed

subsection \<open>Startup drain of the sentinel\<close>

lemma blacklist_fold_addToBlacklist:
  "set (blacklist (fold addToBlacklist lns l)) = set (blacklist l) \<union> set lns"
  by (induction lns arbitrary: l) (auto simp: addToBlacklist_def)

lemma types_fold_addToBlacklist: "types (fold addToBlacklist lns l) = types l"
  by (induction lns arbitrary: l) (auto simp: addToBlacklist_def)

lemma saveConfig_other_files [simp]:
  "KNOWN_PLUGINS_FILE (fs (saveConfig s w)) = KNOWN_PLUGINS_FILE (fs w)"
  "DEAD_MANS_FILE (fs (saveConfig s w)) = DEAD_MANS_FILE (fs w)"
  "trace (saveConfig s w) = trace w"
  by (simp_all add: saveConfig_def)

text \<open>
  C1: when the sentinel file exists at startup, then after \<^verbatim>\<open>loadConfig\<close> every
  identifier that was a line of it is in the blacklist of the catalog, all of them at
  once, and the sentinel file no longer exists.
\<close>

theorem loadConfig_drains_sentinel:
  assumes "DEAD_MANS_FILE (fs w) = Some lns" and "loadConfig s w = (s', w')"
  shows "set lns \<subseteq> set (blacklist (m_pluginlist s')) \<and> DEAD_MANS_FILE (fs w') = None"
  using assms by (auto simp: loadConfig_def Let_def blacklist_fold_addToBlacklist)

theorem loadConfig_drains_sentinel_witness:
  "DEAD_MANS_FILE (fs crashedWorld) = Some [''/plugins/Bad.vst3'', ''/plugins/Worse.vst''] \<and>
   set [''/plugins/Bad.vst3'', ''/plugins/Worse.vst''] \<subseteq>
     set (blacklist (m_pluginlist (fst (loadConfig exampleServer crashedWorld)))) \<and>
   DEAD_MANS_FILE (fs (snd (loadConfig exampleServer crashedWorld))) = None"
proof -
  have d: "DEAD_MANS_FILE (fs crashedWorld) = Some [''/plugins/Bad.vst3'', ''/plugins/Worse.vst'']"
    by (simp add: crashedWorld_def)
  from loadConfig_drains_sentinel [OF d prod.collapse [symmetric]] d
  show ?thesis by simp
qed

text \<open>
  The drain never writes the catalog file: \<^verbatim>\<open>loadConfig\<close> calls \<^verbatim>\<open>saveConfig\<close> and not
  \<^verbatim>\<open>saveKnownPluginList\<close>, and the configuration file has no key for the blacklist.
\<close>

lemma loadConfig_catalog_file:
  "KNOWN_PLUGINS_FILE (fs (snd (loadConfig s w))) = KNOWN_PLUGINS_FILE (fs w)"
  by (simp add: loadConfig_def Let_def split: option.splits)

text \<open>
  C2 says that a drain that finds a sentinel saves both the configuration and the
  catalog, so that the new blacklist entries are durable. On the disk left by a crash,
  the drain puts both identifiers on the blacklist in memory, and the catalog file still
  holds an empty blacklist afterwards. The scan pass that follows reloads the catalog from
  that file, loses both entries, and probes \<open>Bad\<close> again.
\<close>

theorem loadConfig_skips_catalog_save:
  "blacklist (m_pluginlist (fst (loadConfig exampleServer crashedWorld))) =
     [''/plugins/Bad.vst3'', ''/plugins/Worse.vst''] \<and>
   KNOWN_PLUGINS_FILE (fs (snd (loadConfig exampleServer crashedWorld))) =
     Some \<lparr>types = [], blacklist = []\<rparr> \<and>
   probesOf (trace (snd (scanForPlugins0 exampleEnv
       (fst (loadConfig exampleServer crashedWorld))
       (snd (loadConfig exampleServer crashedWorld))))) =
     [[''/opt/AudioGridderServer'', ''-scan'', ''/plugins/Reverb.vst3|VST3''],
      [''/opt/AudioGridderServer'', ''-scan'', ''/plugins/Bad.vst3|VST3'']]"
  by (simp add: loadConfig_def saveConfig_def addToBlacklist_def scan_defs example_defs)

subsection \<open>Isolated probe\<close>

lemma scanNextPlugin_server [simp]: "fst (scanNextPlugin e i f s w) = s"
  by (simp add: scanNextPlugin_def Let_def split: prod.splits proc_outcome.splits)

lemma probesOf_append [simp]: "probesOf (a @ b) = probesOf a @ probesOf b"
  by (induction a rule: probesOf.induct) auto

lemma callbacksOf_append [simp]: "callbacksOf (a @ b) = callbacksOf a @ callbacksOf b"
  by (induction a rule: callbacksOf.induct) auto

lemma connectionsOf_append [simp]: "connectionsOf (a @ b) = connectionsOf a @ connectionsOf b"
  by (induction a rule: connectionsOf.induct) auto

lemma scanNextPlugin_probes [simp]:
  "probesOf (trace (snd (scanNextPlugin e i f s w))) =
     probesOf (trace w) @ [[currentExecutableFile e, ''-scan'', i @ ''|'' @ f]]"
  by (simp add: scanNextPlugin_def Let_def split: prod.splits proc_outcome.splits)

lemma scanNextPlugin_callbacks [simp]:
  "callbacksOf (trace (snd (scanNextPlugin e i f s w))) = callbacksOf (trace w)"
  by (simp add: scanNextPlugin_def Let_def split: prod.splits proc_outcome.splits)

lemma scanNextPlugin_connections [simp]:
  "connectionsOf (trace (snd (scanNextPlugin e i f s w))) = connectionsOf (trace w)"
  by (simp add: scanNextPlugin_def Let_def split: prod.splits proc_outcome.splits)

text \<open>
  C7: \<^verbatim>\<open>scanNextPlugin\<close> leaves the server as it was, and with it the catalog, the
  blacklist and the exclusion set, whatever the child does: fail to start, run into the
  timeout, or exit with any code. A child that started is waited for once, with the
  timeout of 30000 ms, and is killed exactly when it is still running after the wait.
\<close>

theorem scanNextPlugin_frame:
  assumes "scanNextPlugin e ident fmt s w = (s', w')"
  shows "s' = s \<and>
         (\<exists>evs. trace w' = trace w @ evs \<and>
            waitsOf evs =
              (if fst (childProcess e [currentExecutableFile e, ''-scan'', ident @ ''|'' @ fmt] w)
                  = FailedToStart then [] else [30000]) \<and>
            (ProcKill \<in> set evs \<longleftrightarrow>
               fst (childProcess e [currentExecutableFile e, ''-scan'', ident @ ''|'' @ fmt] w)
                 = StillRunning))"
  using assms
  by (auto simp: scanNextPlugin_def Let_def split: prod.splits proc_outcome.splits)

theorem scanNextPlugin_frame_witness:
  "fst (scanNextPlugin exampleEnv ''/plugins/Bad.vst3'' ''VST3'' exampleServer exampleWorld) =
     exampleServer \<and>
   trace (snd (scanNextPlugin exampleEnv ''/plugins/Bad.vst3'' ''VST3'' exampleServer
     exampleWorld)) =
     [ProcStart [''/opt/AudioGridderServer'', ''-scan'', ''/plugins/Bad.vst3|VST3''],
      ProcWait 30000, ProcKill] \<and>
   fst (childProcess exampleEnv
          [currentExecutableFile exampleEnv, ''-scan'', ''/plugins/Bad.vst3'' @ ''|'' @ ''VST3'']
          exampleWorld) = StillRunning"
proof -
  have t: "trace (snd (scanNextPlugin exampleEnv ''/plugins/Bad.vst3'' ''VST3'' exampleServer
     exampleWorld)) =
     [ProcStart [''/opt/AudioGridderServer'', ''-scan'', ''/plugins/Bad.vst3|VST3''],
      ProcWait 30000, ProcKill]"
    by (simp add: scanNextPlugin_def example_defs)
  have c: "fst (childProcess exampleEnv
          [currentExecutableFile exampleEnv, ''-scan'', ''/plugins/Bad.vst3'' @ ''|'' @ ''VST3'']
          exampleWorld) = StillRunning"
    by (simp add: example_defs)
  from scanNextPlugin_frame [OF prod.collapse [symmetric],
      of exampleEnv "''/plugins/Bad.vst3''" "''VST3''" exampleServer exampleWorld]
  have "fst (scanNextPlugin exampleEnv ''/plugins/Bad.vst3'' ''VST3'' exampleServer
     exampleWorld) = exampleServer" by blast
  with t c show ?thesis by simp
qed

subsection \<open>The loops of a scan pass\<close>

text \<open>
  The loops change the world and the never-seen set only: the server, and so the catalog
  against which every decision to probe is taken, is the one loaded before the first loop.
\<close>

lemma scanFiles_server [simp]: "fst (scanFiles e inc fmt ids (s, w, n)) = s"
  by (induction ids arbitrary: w n) (simp_all add: Let_def)

lemma scanFiles_neverSeen:
  "snd (snd (scanFiles e inc fmt ids (s, w, n))) =
     n - getNameOfPluginFromIdentifier e fmt ` set ids"
  by (induction ids arbitrary: w n) (auto simp: Let_def)

lemma probeRequired_code:
  "probeRequired e inc s (fmt, i) \<longleftrightarrow>
     (case getTypeForFile (m_pluginlist s) i of
        None \<Rightarrow> True | Some d \<Rightarrow> pluginNeedsRescanning e fmt d) \<and>
     i \<notin> set (getBlacklistedFiles (m_pluginlist s)) \<and>
     \<not> shouldExclude s (getNameOfPluginFromIdentifier e fmt i) inc"
  by (simp add: probeRequired_def needsDescriptor_def getBlacklistedFiles_def
      split: option.splits)

lemma scanFiles_probes:
  "probesOf (trace (fst (snd (scanFiles e inc fmt ids (s, w, n))))) =
     probesOf (trace w) @
     map (probeArgs e) (filter (probeRequired e inc s) (map (Pair fmt) ids))"
proof (induction ids arbitrary: w n)
  case Nil
  show ?case by simp
next
  case (Cons i ids)
  show ?case
  proof (cases "probeRequired e inc s (fmt, i)")
    case True
    then have c: "(case getTypeForFile (m_pluginlist s) i of None \<Rightarrow> True
                   | Some d \<Rightarrow> pluginNeedsRescanning e fmt d) \<and>
        i \<notin> set (getBlacklistedFiles (m_pluginlist s)) \<and>
        \<not> shouldExclude s (getNameOfPluginFromIdentifier e fmt i) inc"
      by (simp add: probeRequired_code)
    show ?thesis
      using True by (simp add: c Let_def Cons.IH probeArgs_def)
  next
    case False
    then have c: "\<not> ((case getTypeForFile (m_pluginlist s) i of None \<Rightarrow> True
                   | Some d \<Rightarrow> pluginNeedsRescanning e fmt d) \<and>
        i \<notin> set (getBlacklistedFiles (m_pluginlist s)) \<and>
        \<not> shouldExclude s (getNameOfPluginFromIdentifier e fmt i) inc)"
      by (simp add: probeRequired_code)
    show ?thesis
      using False c by (simp add: Let_def Cons.IH)
  qed
qed

lemma scanFiles_callbacks [simp]:
  "callbacksOf (trace (fst (snd (scanFiles e inc fmt ids (s, w, n))))) = callbacksOf (trace w)"
  by (induction ids arbitrary: w n) (simp_all add: Let_def)

lemma scanFiles_connections [simp]:
  "connectionsOf (trace (fst (snd (scanFiles e inc fmt ids (s, w, n))))) =
     connectionsOf (trace w)"
  by (induction ids arbitrary: w n) (simp_all add: Let_def)

lemma scanFiles_triple: "\<exists>w' n'. scanFiles e inc fmt ids (s, w, n) = (s, w', n')"
  by (metis scanFiles_server prod.collapse)

lemma scanFormats_server [simp]: "fst (scanFormats e inc fmts (s, w, n)) = s"
proof (induction fmts arbitrary: w n)
  case Nil
  show ?case by simp
next
  case (Cons fmt fmts)
  obtain w' n' where
    "scanFiles e inc fmt (searchPathsForPlugins e fmt) (s, w, n) = (s, w', n')"
    using scanFiles_triple by blast
  then show ?case by (simp add: Cons.IH)
qed

lemma scanFormats_neverSeen:
  "snd (snd (scanFormats e inc fmts (s, w, n))) =
     n - (\<lambda>p. getNameOfPluginFromIdentifier e (fst p) (snd p)) `
           set (concat (map (\<lambda>fmt. map (Pair fmt) (searchPathsForPlugins e fmt)) fmts))"
proof (induction fmts arbitrary: w n)
  case Nil
  show ?case by simp
next
  case (Cons fmt fmts)
  obtain w' n' where
    st: "scanFiles e inc fmt (searchPathsForPlugins e fmt) (s, w, n) = (s, w', n')"
    using scanFiles_triple by blast
  have "n' = n - getNameOfPluginFromIdentifier e fmt ` set (searchPathsForPlugins e fmt)"
    using scanFiles_neverSeen [of e inc fmt "searchPathsForPlugins e fmt" s w n] st by simp
  then show ?case by (auto simp: st Cons.IH image_Un image_image)
qed

lemma scanFormats_probes:
  "probesOf (trace (fst (snd (scanFormats e inc fmts (s, w, n))))) =
     probesOf (trace w) @ map (probeArgs e) (filter (probeRequired e inc s)
       (concat (map (\<lambda>fmt. map (Pair fmt) (searchPathsForPlugins e fmt)) fmts)))"
proof (induction fmts arbitrary: w n)
  case Nil
  show ?case by simp
next
  case (Cons fmt fmts)
  obtain w' n' where
    st: "scanFiles e inc fmt (searchPathsForPlugins e fmt) (s, w, n) = (s, w', n')"
    using scanFiles_triple by blast
  have "probesOf (trace w') = probesOf (trace w) @ map (probeArgs e)
      (filter (probeRequired e inc s) (map (Pair fmt) (searchPathsForPlugins e fmt)))"
    using scanFiles_probes [of e inc fmt "searchPathsForPlugins e fmt" s w n] st by simp
  then show ?case by (simp add: st Cons.IH)
qed

lemma scanFormats_callbacks [simp]:
  "callbacksOf (trace (fst (snd (scanFormats e inc fmts (s, w, n))))) = callbacksOf (trace w)"
proof (induction fmts arbitrary: w n)
  case Nil
  show ?case by simp
next
  case (Cons fmt fmts)
  obtain w' n' where
    st: "scanFiles e inc fmt (searchPathsForPlugins e fmt) (s, w, n) = (s, w', n')"
    using scanFiles_triple by blast
  have "callbacksOf (trace w') = callbacksOf (trace w)"
    using scanFiles_callbacks [of e inc fmt "searchPathsForPlugins e fmt" s w n] st by simp
  then show ?case by (simp add: st Cons.IH)
qed

lemma scanFormats_connections [simp]:
  "connectionsOf (trace (fst (snd (scanFormats e inc fmts (s, w, n))))) =
     connectionsOf (trace w)"
proof (induction fmts arbitrary: w n)
  case Nil
  show ?case by simp
next
  case (Cons fmt fmts)
  obtain w' n' where
    st: "scanFiles e inc fmt (searchPathsForPlugins e fmt) (s, w, n) = (s, w', n')"
    using scanFiles_triple by blast
  have "connectionsOf (trace w') = connectionsOf (trace w)"
    using scanFiles_connections [of e inc fmt "searchPathsForPlugins e fmt" s w n] st by simp
  then show ?case by (simp add: st Cons.IH)
qed

lemma enabledFormats_load [simp]:
  "enabledFormats e (loadKnownPluginList s w) = enabledFormats e s"
  by (simp add: enabledFormats_def loadKnownPluginList_def)

lemma discovered_load [simp]: "discovered e (loadKnownPluginList s w) = discovered e s"
  by (simp add: discovered_def)

lemma exampleScan:
  "scanForPlugins exampleEnv [] exampleServer exampleWorld =
     (exampleServer\<lparr>m_pluginlist :=
        \<lparr>types = [reverbDesc], blacklist = [''/plugins/Bad.vst3'']\<rparr>\<rparr>,
      \<lparr>fs = \<lparr>SERVER_CONFIG_FILE = None,
            KNOWN_PLUGINS_FILE = Some \<lparr>types = [reverbDesc], blacklist = [''/plugins/Bad.vst3'']\<rparr>,
            DEAD_MANS_FILE = None\<rparr>,
       trace = [ProcStart [''/opt/AudioGridderServer'', ''-scan'', ''/plugins/Reverb.vst3|VST3''],
                ProcWait 30000]\<rparr>)"
  by (simp add: scan_defs example_defs)

subsection \<open>Which plugins a scan pass probes\<close>

text \<open>
  C5: the probes that a scan pass launches are, in the order of the pass, those of the
  discovered plugins for which a probe is required: no descriptor for the identifier in
  the catalog or a descriptor that the driver wants rescanned, the identifier not on the
  blacklist, and the display name not excluded by \<^verbatim>\<open>shouldExclude\<close> for the include-list.
  The catalog and the blacklist are those loaded at the start of the pass. A discovered
  plugin is probed if and only if it passes this test.
\<close>

theorem scanForPlugins_probes:
  assumes "scanForPlugins e inc s w = (s', w')"
  shows "probesOf (trace w') = probesOf (trace w) @
           map (probeArgs e)
             (filter (probeRequired e inc (loadKnownPluginList s w)) (discovered e s))"
  using assms
  by (auto simp: scanForPlugins_def Let_def scanFormats_probes discovered_def)

theorem scanForPlugins_probes_witness:
  "probesOf (trace (snd (scanForPlugins exampleEnv [] exampleServer exampleWorld))) =
     [[''/opt/AudioGridderServer'', ''-scan'', ''/plugins/Reverb.vst3|VST3'']] \<and>
   probeRequired exampleEnv [] (loadKnownPluginList exampleServer exampleWorld)
     (VST3PluginFormat, ''/plugins/Reverb.vst3'') \<and>
   \<not> probeRequired exampleEnv [] (loadKnownPluginList exampleServer exampleWorld)
     (VST3PluginFormat, ''/plugins/Bad.vst3'')"
proof -
  have a: "probeRequired exampleEnv [] (loadKnownPluginList exampleServer exampleWorld)
     (VST3PluginFormat, ''/plugins/Reverb.vst3'')"
    and b: "\<not> probeRequired exampleEnv [] (loadKnownPluginList exampleServer exampleWorld)
     (VST3PluginFormat, ''/plugins/Bad.vst3'')"
    by (simp_all add: probeRequired_def needsDescriptor_def scan_defs example_defs)
  have d: "discovered exampleEnv exampleServer =
      [(VST3PluginFormat, ''/plugins/Reverb.vst3''), (VST3PluginFormat, ''/plugins/Bad.vst3'')]"
    by (simp add: discovered_def enabledFormats_def example_defs)
  from scanForPlugins_probes [OF prod.collapse [symmetric],
      of exampleEnv "[]" exampleServer exampleWorld]
  show ?thesis using a b by (simp add: d probeArgs_def) (simp add: example_defs)
qed

subsection \<open>Pruning of stale exclusions\<close>

lemma scanForPlugins_exclude:
  "m_pluginexclude (fst (scanForPlugins e inc s w)) = m_pluginexclude s \<inter> observedNames e s"
  by (auto simp: scanForPlugins_def Let_def scanFormats_neverSeen observedNames_def
      discovered_def loadKnownPluginList_def)

text \<open>
  C6: of a name that is in the exclusion set when a scan pass starts: when it is not the
  display name of any plugin enumerated for an enabled format, it is not in the exclusion
  set after the pass; when it is, it still is in the set.
\<close>

theorem scanForPlugins_prunes:
  assumes "scanForPlugins e inc s w = (s', w')" and "N \<in> m_pluginexclude s"
  shows "(N \<notin> observedNames e s \<longrightarrow> N \<notin> m_pluginexclude s') \<and>
         (N \<in> observedNames e s \<longrightarrow> N \<in> m_pluginexclude s')"
  using assms scanForPlugins_exclude [of e inc s w] by auto

theorem scanForPlugins_prunes_witness:
  "''OldPlugin'' \<in> m_pluginexclude
      (exampleServer\<lparr>m_pluginexclude := {''OldPlugin'', ''Reverb''}\<rparr>) \<and>
   ''OldPlugin'' \<notin> observedNames exampleEnv
      (exampleServer\<lparr>m_pluginexclude := {''OldPlugin'', ''Reverb''}\<rparr>) \<and>
   ''OldPlugin'' \<notin> m_pluginexclude (fst (scanForPlugins exampleEnv []
      (exampleServer\<lparr>m_pluginexclude := {''OldPlugin'', ''Reverb''}\<rparr>) exampleWorld)) \<and>
   ''Reverb'' \<in> observedNames exampleEnv
      (exampleServer\<lparr>m_pluginexclude := {''OldPlugin'', ''Reverb''}\<rparr>) \<and>
   ''Reverb'' \<in> m_pluginexclude (fst (scanForPlugins exampleEnv []
      (exampleServer\<lparr>m_pluginexclude := {''OldPlugin'', ''Reverb''}\<rparr>) exampleWorld))"
proof -
  let ?s = "exampleServer\<lparr>m_pluginexclude := {''OldPlugin'', ''Reverb''}\<rparr>"
  have o: "observedNames exampleEnv ?s = {''Reverb'', ''Bad''}"
    by (simp add: observedNames_def discovered_def enabledFormats_def example_defs)
  have a: "''OldPlugin'' \<in> m_pluginexclude ?s" and b: "''Reverb'' \<in> m_pluginexclude ?s"
    by simp_all
  from scanForPlugins_prunes [OF prod.collapse [symmetric] a, of exampleEnv "[]" exampleWorld]
    scanForPlugins_prunes [OF prod.collapse [symmetric] b, of exampleEnv "[]" exampleWorld]
  show ?thesis by (simp add: o)
qed

subsection \<open>Scanning twice\<close>

lemma sortAlphabetically_idem [simp]:
  "sortAlphabetically (sortAlphabetically l) = sortAlphabetically l"
  by (simp add: sortAlphabetically_def sort_key_id_if_sorted)

lemma sortAlphabetically_sorted: "sorted (map sortKey (types (sortAlphabetically l)))"
  by (simp add: sortAlphabetically_def)

text \<open>
  The catalog after a pass is the sorted content of the catalog file as the probes of the
  pass left it, or, without a catalog file, the sorted catalog of before.
\<close>

lemma scanForPlugins_catalog:
  "m_pluginlist (fst (scanForPlugins e inc s w)) =
     sortAlphabetically
       (loadKnownPluginListInto (loadKnownPluginListInto (m_pluginlist s) w)
          (snd (scanForPlugins e inc s w)))"
  by (simp add: scanForPlugins_def Let_def loadKnownPluginList_def)

lemma retryScan1:
  "scanForPlugins retryEnv [] exampleServer emptyWorld =
     (exampleServer,
      emptyWorld\<lparr>trace :=
        [ProcStart [''/opt/AudioGridderServer'', ''-scan'', ''/plugins/Slow.vst3|VST3''],
         ProcWait 30000, ProcKill]\<rparr>)"
  by (simp add: scan_defs example_defs)

lemma retryScan2:
  "m_pluginlist (fst (scanForPlugins retryEnv [] exampleServer
      (emptyWorld\<lparr>trace :=
        [ProcStart [''/opt/AudioGridderServer'', ''-scan'', ''/plugins/Slow.vst3|VST3''],
         ProcWait 30000, ProcKill]\<rparr>))) = \<lparr>types = [slowDesc], blacklist = []\<rparr>"
  by (simp add: scan_defs example_defs)

text \<open>
  C8, as stated: two passes in succession, with nothing changed on disk between them and
  no crash, end with the same catalog. It fails when a probe that the first pass had to
  kill at the timeout completes in the second pass: the first pass of the machine with
  the plugin \<open>Slow\<close> leaves the disk as it was and the catalog empty, the second pass,
  started from exactly there, ends with the descriptor of \<open>Slow\<close> in the catalog.
\<close>

theorem scanForPlugins_twice_counterexample:
  "fs (snd (scanForPlugins retryEnv [] exampleServer emptyWorld)) = fs emptyWorld \<and>
   m_pluginlist (fst (scanForPlugins retryEnv [] exampleServer emptyWorld)) =
     \<lparr>types = [], blacklist = []\<rparr> \<and>
   m_pluginlist (fst (scanForPlugins retryEnv []
       (fst (scanForPlugins retryEnv [] exampleServer emptyWorld))
       (snd (scanForPlugins retryEnv [] exampleServer emptyWorld)))) =
     \<lparr>types = [slowDesc], blacklist = []\<rparr>"
  by (simp add: retryScan1 retryScan2) (simp add: example_defs)

text \<open>
  A pass that has no probe to launch leaves the world, files and trace, as it found it.
\<close>

lemma scanFiles_quiet:
  "filter (probeRequired e inc s) (map (Pair fmt) ids) = [] \<Longrightarrow>
     fst (snd (scanFiles e inc fmt ids (s, w, n))) = w"
proof (induction ids arbitrary: w n)
  case Nil
  show ?case by simp
next
  case (Cons i ids)
  from Cons.prems have np: "\<not> probeRequired e inc s (fmt, i)"
    and rest: "filter (probeRequired e inc s) (map (Pair fmt) ids) = []"
    by (auto split: if_splits)
  from np have c: "\<not> ((case getTypeForFile (m_pluginlist s) i of None \<Rightarrow> True
                   | Some d \<Rightarrow> pluginNeedsRescanning e fmt d) \<and>
        i \<notin> set (getBlacklistedFiles (m_pluginlist s)) \<and>
        \<not> shouldExclude s (getNameOfPluginFromIdentifier e fmt i) inc)"
    by (simp add: probeRequired_code)
  show ?case using c by (auto simp: Let_def Cons.IH [OF rest])
qed

lemma scanFormats_quiet:
  "filter (probeRequired e inc s)
     (concat (map (\<lambda>fmt. map (Pair fmt) (searchPathsForPlugins e fmt)) fmts)) = [] \<Longrightarrow>
     fst (snd (scanFormats e inc fmts (s, w, n))) = w"
proof (induction fmts arbitrary: w n)
  case Nil
  show ?case by simp
next
  case (Cons fmt fmts)
  from Cons.prems have
    a: "filter (probeRequired e inc s) (map (Pair fmt) (searchPathsForPlugins e fmt)) = []"
    and b: "filter (probeRequired e inc s)
      (concat (map (\<lambda>fmt. map (Pair fmt) (searchPathsForPlugins e fmt)) fmts)) = []"
    by simp_all
  obtain w' n' where
    st: "scanFiles e inc fmt (searchPathsForPlugins e fmt) (s, w, n) = (s, w', n')"
    using scanFiles_triple by blast
  have "w' = w"
    using scanFiles_quiet [OF a, of w n] st by simp
  then show ?case by (simp add: st Cons.IH [OF b])
qed

lemma scanForPlugins_quiet:
  assumes "filter (probeRequired e inc (loadKnownPluginList s w)) (discovered e s) = []"
  shows "snd (scanForPlugins e inc s w) = w"
  using assms
  by (simp add: scanForPlugins_def Let_def discovered_def scanFormats_quiet)

text \<open>
  C8, amended: two passes in succession, the second started from the server and the disk
  that the first one left, end with the same catalog, sorted by name without regard to
  case, provided no plugin that the second pass discovers requires a probe when it starts:
  each has a descriptor that needs no rescanning, or is blacklisted, or is excluded.
\<close>

theorem scanForPlugins_twice:
  assumes "scanForPlugins e inc s w = (s1, w1)"
    and "scanForPlugins e inc s1 w1 = (s2, w2)"
    and "filter (probeRequired e inc (loadKnownPluginList s1 w1)) (discovered e s1) = []"
  shows "m_pluginlist s2 = m_pluginlist s1 \<and> sorted (map sortKey (types (m_pluginlist s1)))"
proof -
  have q: "w2 = w1"
    using scanForPlugins_quiet [OF assms(3)] assms(2) by simp
  have c1: "m_pluginlist s1 =
      sortAlphabetically (loadKnownPluginListInto (loadKnownPluginListInto (m_pluginlist s) w) w1)"
    using scanForPlugins_catalog [of e inc s w] assms(1) by simp
  have c2: "m_pluginlist s2 =
      sortAlphabetically
        (loadKnownPluginListInto (loadKnownPluginListInto (m_pluginlist s1) w1) w2)"
    using scanForPlugins_catalog [of e inc s1 w1] assms(2) by simp
  have "m_pluginlist s2 = m_pluginlist s1"
    unfolding c2 q unfolding c1
    by (simp add: loadKnownPluginListInto_def split: option.splits)
  moreover have "sorted (map sortKey (types (m_pluginlist s1)))"
    unfolding c1 by (rule sortAlphabetically_sorted)
  ultimately show ?thesis by simp
qed

theorem scanForPlugins_twice_witness:
  "filter (probeRequired exampleEnv []
       (loadKnownPluginList (fst (scanForPlugins exampleEnv [] exampleServer exampleWorld))
          (snd (scanForPlugins exampleEnv [] exampleServer exampleWorld))))
     (discovered exampleEnv (fst (scanForPlugins exampleEnv [] exampleServer exampleWorld))) = [] \<and>
   m_pluginlist (fst (scanForPlugins exampleEnv []
       (fst (scanForPlugins exampleEnv [] exampleServer exampleWorld))
       (snd (scanForPlugins exampleEnv [] exampleServer exampleWorld)))) =
   m_pluginlist (fst (scanForPlugins exampleEnv [] exampleServer exampleWorld)) \<and>
   types (m_pluginlist (fst (scanForPlugins exampleEnv [] exampleServer exampleWorld))) =
     [reverbDesc] \<and>
   sorted (map sortKey (types (m_pluginlist
       (fst (scanForPlugins exampleEnv [] exampleServer exampleWorld)))))"
proof -
  have f: "filter (probeRequired exampleEnv []
       (loadKnownPluginList (fst (scanForPlugins exampleEnv [] exampleServer exampleWorld))
          (snd (scanForPlugins exampleEnv [] exampleServer exampleWorld))))
     (discovered exampleEnv (fst (scanForPlugins exampleEnv [] exampleServer exampleWorld))) = []"
    by (simp add: exampleScan)
      (simp add: probeRequired_def needsDescriptor_def discovered_def scan_defs example_defs)
  have t: "types (m_pluginlist (fst (scanForPlugins exampleEnv [] exampleServer exampleWorld))) =
     [reverbDesc]"
    by (simp add: exampleScan)
  from scanForPlugins_twice [OF prod.collapse [symmetric] prod.collapse [symmetric] f] f t
  show ?thesis by simp
qed

subsection \<open>Listener startup\<close>

lemma scanForPlugins_members [simp]:
  "m_workers (fst (scanForPlugins e inc s w)) = m_workers s"
  "m_port (fst (scanForPlugins e inc s w)) = m_port s"
  "m_id (fst (scanForPlugins e inc s w)) = m_id s"
  "m_host (fst (scanForPlugins e inc s w)) = m_host s"
  by (simp_all add: scanForPlugins_def Let_def loadKnownPluginList_def)

lemma scanForPlugins_connections [simp]:
  "connectionsOf (trace (snd (scanForPlugins e inc s w))) = connectionsOf (trace w)"
  by (simp add: scanForPlugins_def Let_def)

lemma scanForPlugins_callbacks [simp]:
  "callbacksOf (trace (snd (scanForPlugins e inc s w))) = callbacksOf (trace w)"
  by (simp add: scanForPlugins_def Let_def)

lemma saveKnownPluginList_trace [simp]: "trace (saveKnownPluginList s w) = trace w"
  by (simp add: saveKnownPluginList_def saveKnownPluginListFrom_def)

text \<open>
  C9: when the listener cannot be created on the port \<open>m_port + m_id\<close> (the sum of
  two C++ \<^verbatim>\<open>int\<close>, which wraps at 32 bits) at the configured host, \<^verbatim>\<open>run\<close> returns
  without entering the accept loop: it returns whatever turns the loop would have been
  given, also none at all, the registry of workers is as it was, and no connection is
  accepted and no worker started.
\<close>

theorem run_bind_failure:
  assumes "\<not> createListener e (sint (m_port s + m_id s)) (m_host s)"
  shows "\<exists>s' w'. run e steps s w = Some (s', w') \<and> run e [] s w = Some (s', w') \<and>
           m_workers s' = m_workers s \<and> connectionsOf (trace w') = connectionsOf (trace w)"
  using assms by (simp add: run_def scanForPlugins0_def Let_def)

theorem run_bind_failure_witness:
  "\<not> createListener exampleEnv (sint (m_port exampleServer + m_id exampleServer))
       (m_host exampleServer) \<and>
   (\<exists>s' w'. run exampleEnv exampleSteps exampleServer exampleWorld = Some (s', w') \<and>
      run exampleEnv [] exampleServer exampleWorld = Some (s', w') \<and>
      m_workers s' = m_workers exampleServer \<and>
      connectionsOf (trace w') = connectionsOf (trace exampleWorld)) \<and>
   sint (m_port (exampleServer\<lparr>m_id := 2147483647\<rparr>) +
         m_id (exampleServer\<lparr>m_id := 2147483647\<rparr>)) = - 2147428594 \<and>
   (\<exists>s' w'. run exampleEnv exampleSteps (exampleServer\<lparr>m_id := 2147483647\<rparr>) exampleWorld =
        Some (s', w') \<and>
      run exampleEnv [] (exampleServer\<lparr>m_id := 2147483647\<rparr>) exampleWorld = Some (s', w') \<and>
      m_workers s' = m_workers (exampleServer\<lparr>m_id := 2147483647\<rparr>) \<and>
      connectionsOf (trace w') = connectionsOf (trace exampleWorld))"
proof -
  have c: "\<not> createListener exampleEnv (sint (m_port exampleServer + m_id exampleServer))
      (m_host exampleServer)"
    by (simp add: example_defs)
  have p: "sint (m_port (exampleServer\<lparr>m_id := 2147483647\<rparr>) +
         m_id (exampleServer\<lparr>m_id := 2147483647\<rparr>)) = - 2147428594"
    by (simp add: example_defs)
  have d: "\<not> createListener exampleEnv
      (sint (m_port (exampleServer\<lparr>m_id := 2147483647\<rparr>) +
             m_id (exampleServer\<lparr>m_id := 2147483647\<rparr>)))
      (m_host (exampleServer\<lparr>m_id := 2147483647\<rparr>))"
    unfolding p by (simp add: example_defs)
  from run_bind_failure [OF c, of exampleSteps exampleWorld]
    run_bind_failure [OF d, of exampleSteps exampleWorld] c p
  show ?thesis by simp
qed

text \<open>
  The port is the wrapped sum: with the instance id 2147483647 the listener is asked for
  the port -2147428594, and a listener that can be created exactly there lets the accept
  loop run.
\<close>

lemma run_wrapped_port_example:
  "\<exists>s' w'. run (exampleEnv\<lparr>createListener := (\<lambda>port host. port = - 2147428594)\<rparr>) exampleSteps
       (exampleServer\<lparr>m_id := 2147483647\<rparr>) exampleWorld = Some (s', w') \<and>
     m_workers s' = [8] \<and>
     connectionsOf (trace w') = [ConnAccepted 7, WorkerStarted 7, ConnAccepted 8, WorkerStarted 8]"
  by (simp add: run_def scan_defs example_defs exampleSteps_def
      saveConfig_def saveKnownPluginList_def saveKnownPluginListFrom_def)

text \<open>
  With a listener that can be created, the same turns are taken: both connections are
  accepted, and the first worker, whose thread has ended, is swept out of the registry.
\<close>

lemma run_accepts_example:
  "\<exists>s' w'. run (exampleEnv\<lparr>createListener := (\<lambda>port host. True)\<rparr>) exampleSteps
       exampleServer exampleWorld = Some (s', w') \<and>
     m_workers s' = [8] \<and>
     connectionsOf (trace w') = [ConnAccepted 7, WorkerStarted 7, ConnAccepted 8, WorkerStarted 8]"
proof -
  have e: "scanForPlugins (exampleEnv\<lparr>createListener := (\<lambda>port host. True)\<rparr>) []
      exampleServer exampleWorld = scanForPlugins exampleEnv [] exampleServer exampleWorld"
    by (simp add: scan_defs example_defs)
  show ?thesis
    by (simp add: run_def scanForPlugins0_def e exampleScan Let_def exampleSteps_def
        saveConfig_def saveKnownPluginList_def saveKnownPluginListFrom_def)
qed

subsection \<open>Adding plugins on request\<close>

lemma foundIn_iff: "foundIn nm ts \<longleftrightarrow> nm \<in> descriptiveName ` set ts"
  by (induction ts) auto

lemma reportFound_eq:
  "reportFound names ts = [Callback (set names \<subseteq> descriptiveName ` set ts)]"
  by (induction names) (auto simp: foundIn_iff)

text \<open>
  C10: with a callback that is not null, \<^verbatim>\<open>addPlugins\<close> calls it once, after everything
  its scan pass did, and no second time; the argument is true exactly when every requested
  name is the descriptive name of a descriptor of the catalog as the scan pass left it.
\<close>

theorem addPlugins_callback:
  assumes "fn" and "addPlugins e names fn s w = (s', w')"
  shows "trace w' = trace (snd (scanForPlugins e names s w)) @
           [Callback (set names \<subseteq> descriptiveName ` set (types (m_pluginlist s')))] \<and>
         callbacksOf (trace w') = callbacksOf (trace w) @
           [set names \<subseteq> descriptiveName ` set (types (m_pluginlist s'))]"
  using assms by (auto simp: addPlugins_def Let_def reportFound_eq)

theorem addPlugins_callback_witness:
  "callbacksOf (trace (snd (addPlugins exampleEnv [''Reverb''] True exampleServer
     exampleWorld))) = [True] \<and>
   callbacksOf (trace (snd (addPlugins exampleEnv [''Reverb'', ''Bad''] True exampleServer
     exampleWorld))) = [False]"
proof -
  have a: "types (m_pluginlist (fst (addPlugins exampleEnv [''Reverb''] True exampleServer
      exampleWorld))) = [reverbDesc]"
    and b: "types (m_pluginlist (fst (addPlugins exampleEnv [''Reverb'', ''Bad''] True
      exampleServer exampleWorld))) = [reverbDesc]"
    by (simp_all add: addPlugins_def scan_defs excludedByIncludeList_iff example_defs)
  have t: "callbacksOf (trace exampleWorld) = []" by (simp add: example_defs)
  from addPlugins_callback [OF TrueI prod.collapse [symmetric],
      of exampleEnv "[''Reverb'']" exampleServer exampleWorld]
    addPlugins_callback [OF TrueI prod.collapse [symmetric],
      of exampleEnv "[''Reverb'', ''Bad'']" exampleServer exampleWorld]
  show ?thesis by (simp add: a b t) (simp add: reverbDesc_def)
qed

end
